theory Spec2Isabelle
  imports Main "HOL-Library.Char_ord" "HOL-Library.List_Lexorder" "HOL-Library.AList"
begin

section \<open>Strings\<close>

text \<open>
  Go strings are modelled as \<^typ>\<open>string\<close> over ASCII characters, so a byte is a rune.
  \<open>sort.Strings\<close> is \<^const>\<open>sort\<close> for the lexicographic order on character codes.
  The helpers below follow the Go standard library functions of the same names.
\<close>

definition HasSuffix :: "string \<Rightarrow> string \<Rightarrow> bool" where
  "HasSuffix s suffix =
     (length s \<ge> length suffix \<and> drop (length s - length suffix) s = suffix)"

definition HasPrefix :: "string \<Rightarrow> string \<Rightarrow> bool" where
  "HasPrefix s prefix = (length s \<ge> length prefix \<and> take (length prefix) s = prefix)"

definition TrimSuffix :: "string \<Rightarrow> string \<Rightarrow> string" where
  "TrimSuffix s suffix = (if HasSuffix s suffix then take (length s - length suffix) s else s)"

definition TrimPrefix :: "string \<Rightarrow> string \<Rightarrow> string" where
  "TrimPrefix s prefix = (if HasPrefix s prefix then drop (length prefix) s else s)"

text \<open>\<open>strings.Split(s, sep)\<close> for a separator of one character.\<close>

fun Split :: "string \<Rightarrow> char \<Rightarrow> string list" where
  "Split [] sep = [[]]"
| "Split (c # cs) sep =
     (if c = sep then [] # Split cs sep
      else (case Split cs sep of [] \<Rightarrow> [[c]] | p # ps \<Rightarrow> (c # p) # ps))"

text \<open>\<open>unicode.IsLetter\<close> and \<open>unicode.IsDigit\<close> on ASCII.\<close>

definition IsLetter :: "char \<Rightarrow> bool" where
  "IsLetter r = ((CHR ''A'' \<le> r \<and> r \<le> CHR ''Z'') \<or> (CHR ''a'' \<le> r \<and> r \<le> CHR ''z''))"

definition IsDigit :: "char \<Rightarrow> bool" where
  "IsDigit r = (CHR ''0'' \<le> r \<and> r \<le> CHR ''9'')"

text \<open>\<open>filepath.Separator\<close> of a Unix build.\<close>

definition Separator :: char where
  "Separator = CHR ''/''"

section \<open>Data model\<close>

datatype SchemaType = ANY | ARRAY | BOOLEAN | INTEGER | NUMBER | NULL | OBJECT | STRING

text \<open>The untyped decoding of a document (\<open>map[string]any\<close> and what it holds).\<close>

datatype json =
  JObject "(string \<times> json) list"
| JArray "json list"
| JString string
| JNumber int
| JBool bool
| JNull

text \<open>
  A \<open>*Schema\<close> is an address or nil (\<open>None\<close>); the nodes live in a store. A Go map is
  an association list with distinct keys, \<open>None\<close> when the map is nil; the order of the
  list is the order in which a \<open>range\<close> statement over the map yields its entries. The
  Go runtime is free to choose another order at every \<open>range\<close> statement; a list fixes
  one order for all of them, and a second run is a second list with the same entries.
\<close>

type_synonym ptr = "nat option"

record Schema =
  Title :: string
  ID :: string
  Type :: SchemaType
  Description :: string
  Definitions :: "(string \<times> ptr) list option"
  Properties :: "(string \<times> ptr) list option"
  AdditionalProperties :: bool
  PatternProperties :: "(string \<times> ptr) list option"
  Ref :: string
  Items :: ptr
  OneOf :: "ptr list"
  Const :: string
  Enum :: "string list"
  Root :: ptr
  raw :: "(string \<times> json) list option"

type_synonym heap = "nat \<Rightarrow> Schema"

text \<open>The zero value \<open>Schema{}\<close>.\<close>

definition zeroSchema :: Schema where
  "zeroSchema = \<lparr>Title = [], ID = [], Type = ANY, Description = [], Definitions = None,
     Properties = None, AdditionalProperties = False, PatternProperties = None, Ref = [],
     Items = None, OneOf = [], Const = [], Enum = [], Root = None, raw = None\<rparr>"

datatype error =
  NilDereference
| TypeAssertion
| NilMapAssignment
| PathNotFound string
| NotAMap string
| UnmarshalError
| MergingZeroSchemas
| OutputError

text \<open>
  The processor. \<open>stdio\<close> (three I/O handles) is left out. \<open>handed\<close> is not a field of
  the Go struct: it records, in order, every (type name, code) pair that \<open>writeGoCode\<close>
  passes on to its output section (standard output, \<open>gofmt\<close> or a file).
\<close>

record SchemaProcessor =
  outputDir :: string
  packageName :: string
  overwrite :: bool
  stdout :: bool
  format :: bool
  comment :: bool
  replacements :: "(string \<times> string) list option"
  processed :: "(string \<times> bool) list option"
  handed :: "(string \<times> string) list"

text \<open>
  What the package calls but does not define: \<open>strcase.ToCamel\<close>, the title caser
  \<open>cases.Title(language.Und).String\<close>, \<open>json.MarshalIndent\<close> of a node,
  \<open>json.Marshal\<close> followed by \<open>json.Unmarshal\<close> into a fresh \<open>Schema\<close>, and the
  outcome of the output section of \<open>writeGoCode\<close> (nil or an error of the operating system).
\<close>

record ext =
  ToCamel :: "string \<Rightarrow> string"
  caserString :: "string \<Rightarrow> string"
  MarshalIndent :: "heap \<Rightarrow> Schema \<Rightarrow> string"
  Unmarshal :: "json \<Rightarrow> heap \<Rightarrow> error + nat \<times> heap"
  outputResult :: "SchemaProcessor \<Rightarrow> string \<Rightarrow> string \<Rightarrow> error option"

section \<open>Naming\<close>

text \<open>\<open>Schema.Name\<close>: the title, else the cleaned last segment of the id, else the description.\<close>

definition Name :: "Schema \<Rightarrow> string" where
  "Name s =
     (let name = Title s;
          name = (if name = [] then
                    (let parts = Split (ID s) Separator
                     in filter (\<lambda>r. IsLetter r \<or> IsDigit r) (last parts))
                  else name)
      in if name = [] then Description s else name)"

definition defaultReplacements :: "(string \<times> string) list" where
  "defaultReplacements =
     [(''Id'', ''ID''), (''Http'', ''HTTP''), (''Https'', ''HTTPS''), (''Api'', ''API''),
      (''Url'', ''URL''), (''Json'', ''JSON''), (''Xml'', ''XML''), (''Html'', ''HTML'')]"

text \<open>The entries a \<open>range\<close> over a map yields; none for a nil map.\<close>

definition entries :: "('k \<times> 'v) list option \<Rightarrow> ('k \<times> 'v) list" where
  "entries m = (case m of None \<Rightarrow> [] | Some kvs \<Rightarrow> kvs)"

text \<open>The two loops of \<open>toCamel\<close>: the first returns at the first key that is a suffix.\<close>

fun suffixLoop :: "(string \<times> string) list \<Rightarrow> string \<Rightarrow> string option" where
  "suffixLoop [] word = None"
| "suffixLoop ((k, v) # kvs) word =
     (if HasSuffix word k then Some (TrimSuffix word k @ v) else suffixLoop kvs word)"

fun prefixLoop :: "(string \<times> string) list \<Rightarrow> string \<Rightarrow> string" where
  "prefixLoop [] word = word"
| "prefixLoop ((k, v) # kvs) word =
     prefixLoop kvs (if HasPrefix word k then v @ TrimPrefix word k else word)"

definition toCamel :: "ext \<Rightarrow> SchemaProcessor \<Rightarrow> string \<Rightarrow> string" where
  "toCamel X s str =
     (let word = ToCamel X str
      in case suffixLoop (entries (replacements s)) word of
           Some w \<Rightarrow> w
         | None \<Rightarrow> prefixLoop (entries (replacements s)) word)"

section \<open>Constructing a processor\<close>

datatype SchemaProcessorOption =
  OutputDir string
| PackageName string
| Overwrite bool
| Stdout bool
| Format bool
| Comment bool
| IO
| Replacements "(string \<times> string) list option"

fun applyOption :: "SchemaProcessorOption \<Rightarrow> SchemaProcessor \<Rightarrow> SchemaProcessor" where
  "applyOption (OutputDir dir) s = s\<lparr>outputDir := dir\<rparr>"
| "applyOption (PackageName name) s = s\<lparr>packageName := name\<rparr>"
| "applyOption (Overwrite b) s = s\<lparr>overwrite := b\<rparr>"
| "applyOption (Stdout b) s = s\<lparr>stdout := b\<rparr>"
| "applyOption (Format b) s = s\<lparr>format := b\<rparr>"
| "applyOption (Comment b) s = s\<lparr>comment := b\<rparr>"
| "applyOption IO s = s"
| "applyOption (Replacements r) s = s\<lparr>replacements := r\<rparr>"

definition zeroProcessor :: SchemaProcessor where
  "zeroProcessor = \<lparr>outputDir = [], packageName = [], overwrite = False, stdout = False,
     format = False, comment = False, replacements = None, processed = None, handed = []\<rparr>"

text \<open>The loop \<open>s.replacements[k] = v\<close> over the built-in table; a nil map panics.\<close>

fun mergeReplacements :: "(string \<times> string) list \<Rightarrow> SchemaProcessor \<Rightarrow> error + SchemaProcessor" where
  "mergeReplacements [] s = Inr s"
| "mergeReplacements ((k, v) # kvs) s =
     (case replacements s of
        None \<Rightarrow> Inl NilMapAssignment
      | Some m \<Rightarrow> mergeReplacements kvs (s\<lparr>replacements := Some (AList.update k v m)\<rparr>))"

definition NewSchemaProcessor :: "SchemaProcessorOption list \<Rightarrow> error + SchemaProcessor" where
  "NewSchemaProcessor options =
     (let s = foldl (\<lambda>s option. applyOption option s) zeroProcessor options
      in mergeReplacements defaultReplacements s)"

section \<open>Emission\<close>

definition seen :: "SchemaProcessor \<Rightarrow> string \<Rightarrow> bool" where
  "seen s typeName =
     (case processed s of
        None \<Rightarrow> False
      | Some m \<Rightarrow> (case map_of m typeName of None \<Rightarrow> False | Some b \<Rightarrow> b))"

definition writeGoCode :: "ext \<Rightarrow> SchemaProcessor \<Rightarrow> string \<Rightarrow> string \<Rightarrow> error option \<times> SchemaProcessor" where
  "writeGoCode X s typeName code =
     (if seen s typeName then (None, s)
      else
        (let s1 = (case processed s of
                     None \<Rightarrow> s\<lparr>processed := Some [(typeName, True)]\<rparr>
                   | Some m \<Rightarrow> s\<lparr>processed := Some (AList.update typeName True m)\<rparr>);
             s2 = s1\<lparr>handed := handed s1 @ [(typeName, code)]\<rparr>
         in (outputResult X s2 typeName code, s2)))"

section \<open>Type synthesis\<close>

text \<open>
  A result is \<open>None\<close> when the recursion has not returned within the given depth,
  \<open>Some (Inl e)\<close> for a panic or a returned error, and \<open>Some (Inr (typeName, s))\<close> for a
  normal return with the processor as it is then.
\<close>

type_synonym result = "(error + string \<times> SchemaProcessor) option"

definition dq :: string where
  "dq = [CHR 0x22]"

definition bq :: string where
  "bq = [CHR 0x60]"

definition structComment :: "ext \<Rightarrow> SchemaProcessor \<Rightarrow> heap \<Rightarrow> Schema \<Rightarrow> string \<Rightarrow> string" where
  "structComment X s h schema typeName =
     (if \<not> comment s then []
      else ''// '' @ typeName @ '' defined from schema:\<newline>// '' @ MarshalIndent X h schema @ ''\<newline>'')"

text \<open>The line of a struct field and the line of an inlined field.\<close>

definition fieldLine :: "string \<Rightarrow> string \<Rightarrow> string \<Rightarrow> string" where
  "fieldLine name subTypeName k =
     ''    '' @ name @ '' '' @ subTypeName @ '' '' @ bq @ ''json:'' @ dq @ k @ '',omitempty'' @ dq
       @ '' yaml:'' @ dq @ k @ '',omitempty'' @ dq @ bq @ ''\<newline>''"

definition inlineLine :: "string \<Rightarrow> string \<Rightarrow> string" where
  "inlineLine name oneOfTypeName =
     ''    '' @ name @ '' '' @ oneOfTypeName @ '' '' @ bq @ ''json:'' @ dq @ '',inline'' @ dq
       @ '' yaml:'' @ dq @ '',inline'' @ dq @ bq @ ''\<newline>''"

text \<open>\<open>m[k]\<close> on a \<open>map[string]*Schema\<close>: nil when the key is missing.\<close>

definition index :: "(string \<times> ptr) list \<Rightarrow> string \<Rightarrow> ptr" where
  "index m k = (case map_of m k of None \<Rightarrow> None | Some v \<Rightarrow> v)"

text \<open>A recursive call through a pointer: reading the type of a nil node panics.\<close>

definition processPtr :: "(Schema \<Rightarrow> SchemaProcessor \<Rightarrow> result) \<Rightarrow> heap \<Rightarrow> ptr \<Rightarrow> SchemaProcessor \<Rightarrow> result" where
  "processPtr rec h p s = (case p of None \<Rightarrow> Some (Inl NilDereference) | Some a \<Rightarrow> rec (h a) s)"

text \<open>The loop over the sorted keys of a properties map, appending one field line per key.\<close>

fun structFields :: "ext \<Rightarrow> heap \<Rightarrow> (Schema \<Rightarrow> SchemaProcessor \<Rightarrow> result) \<Rightarrow> (string \<times> ptr) list
    \<Rightarrow> string list \<Rightarrow> string \<Rightarrow> SchemaProcessor \<Rightarrow> result" where
  "structFields X h rec props [] typeData s = Some (Inr (typeData, s))"
| "structFields X h rec props (k # keys) typeData s =
     (case processPtr rec h (index props k) s of
        None \<Rightarrow> None
      | Some (Inl e) \<Rightarrow> Some (Inl e)
      | Some (Inr (subTypeName, s1)) \<Rightarrow>
          structFields X h rec props keys
            (typeData @ fieldLine (toCamel X s1 k) subTypeName k) s1)"

text \<open>The loop over the sorted keys of a pattern-properties map.\<close>

fun patternFields :: "ext \<Rightarrow> heap \<Rightarrow> (Schema \<Rightarrow> SchemaProcessor \<Rightarrow> result) \<Rightarrow> Schema
    \<Rightarrow> (string \<times> ptr) list \<Rightarrow> string list \<Rightarrow> string \<Rightarrow> SchemaProcessor \<Rightarrow> result" where
  "patternFields X h rec schema props [] typeName s = Some (Inr (typeName, s))"
| "patternFields X h rec schema props (k # keys) typeName s =
     (case processPtr rec h (index props k) s of
        None \<Rightarrow> None
      | Some (Inl e) \<Rightarrow> Some (Inl e)
      | Some (Inr (subTypeName, s1)) \<Rightarrow>
          (if caserString X subTypeName = subTypeName then
             (let typeName = TrimPrefix (subTypeName @ ''Map'') ''*'';
                  typeData = structComment X s1 h schema typeName @ ''type '' @ typeName
                    @ '' map[string]'' @ subTypeName @ ''\<newline>\<newline>''
              in case writeGoCode X s1 typeName typeData of
                   (Some e, s2) \<Rightarrow> Some (Inl e)
                 | (None, s2) \<Rightarrow> patternFields X h rec schema props keys typeName s2)
           else patternFields X h rec schema props keys (''map[string]'' @ subTypeName) s1))"

subsection \<open>Merging the alternatives of a oneOf\<close>

fun derefAll :: "heap \<Rightarrow> ptr list \<Rightarrow> Schema list option" where
  "derefAll h [] = Some []"
| "derefAll h (None # ps) = None"
| "derefAll h (Some a # ps) = (case derefAll h ps of None \<Rightarrow> None | Some ss \<Rightarrow> Some (h a # ss))"

definition newUncommon :: "Schema \<Rightarrow> Schema \<Rightarrow> Schema" where
  "newUncommon parent schema = zeroSchema\<lparr>Description := Name schema, Root := Root parent,
     Properties := Some [], Type := Type schema\<rparr>"

definition uncommonInit :: "Schema \<Rightarrow> Schema list \<Rightarrow> (string \<times> Schema) list" where
  "uncommonInit parent schemas =
     foldl (\<lambda>m schema. AList.update (Name schema) (newUncommon parent schema) m) [] schemas"

definition count :: "(string \<times> nat) list \<Rightarrow> string \<Rightarrow> nat" where
  "count m p = (case map_of m p of None \<Rightarrow> 0 | Some n \<Rightarrow> n)"

definition countProperties :: "Schema list \<Rightarrow> (string \<times> nat) list" where
  "countProperties schemas =
     foldl (\<lambda>m schema. foldl (\<lambda>m (p, v). AList.update p (count m p + 1) m) m
        (entries (Properties schema))) [] schemas"

text \<open>
  The loop that distributes the properties: a key counted more than once goes to the
  merged parent, any other key to the entry of \<open>uncommonSchemas\<close> under the name of its
  alternative.
\<close>

definition assignProperty :: "(string \<times> nat) list \<Rightarrow> string
    \<Rightarrow> (string \<times> ptr) list \<times> (string \<times> Schema) list \<Rightarrow> string \<times> ptr
    \<Rightarrow> (string \<times> ptr) list \<times> (string \<times> Schema) list" where
  "assignProperty allProperties name acc pv =
     (case (acc, pv) of ((merged, uncommon), (p, v)) \<Rightarrow>
        if count allProperties p > 1 then (AList.update p v merged, uncommon)
        else (merged,
              AList.map_entry name
                (\<lambda>u. u\<lparr>Properties := Some (AList.update p v (entries (Properties u)))\<rparr>) uncommon))"

definition splitProperties :: "(string \<times> nat) list \<Rightarrow> (string \<times> Schema) list \<Rightarrow> Schema list
    \<Rightarrow> (string \<times> ptr) list \<times> (string \<times> Schema) list" where
  "splitProperties allProperties uncommon schemas =
     foldl (\<lambda>acc schema. foldl (assignProperty allProperties (Name schema)) acc
        (entries (Properties schema))) ([], uncommon) schemas"

fun inlineFields :: "ext \<Rightarrow> (Schema \<Rightarrow> SchemaProcessor \<Rightarrow> result) \<Rightarrow> (string \<times> Schema) list
    \<Rightarrow> string list \<Rightarrow> string \<Rightarrow> SchemaProcessor \<Rightarrow> result" where
  "inlineFields X rec uncommon [] typeData s = Some (Inr (typeData, s))"
| "inlineFields X rec uncommon (k # keys) typeData s =
     (case (case map_of uncommon k of None \<Rightarrow> Some (Inl NilDereference) | Some u \<Rightarrow> rec u s) of
        None \<Rightarrow> None
      | Some (Inl e) \<Rightarrow> Some (Inl e)
      | Some (Inr (oneOfTypeName, s1)) \<Rightarrow>
          inlineFields X rec uncommon keys
            (typeData @ inlineLine (toCamel X s1 k) oneOfTypeName) s1)"

definition mergeSchemas :: "ext \<Rightarrow> heap \<Rightarrow> (Schema \<Rightarrow> SchemaProcessor \<Rightarrow> result) \<Rightarrow> Schema
    \<Rightarrow> ptr list \<Rightarrow> SchemaProcessor \<Rightarrow> result" where
  "mergeSchemas X h rec parent schemas s =
     (case schemas of
        [] \<Rightarrow> Some (Inl MergingZeroSchemas)
      | [p] \<Rightarrow> processPtr rec h p s
      | _ \<Rightarrow>
        (case derefAll h schemas of
           None \<Rightarrow> Some (Inl NilDereference)
         | Some alts \<Rightarrow>
            (let mergedParent = zeroSchema\<lparr>Description := Name parent, Root := Root parent,
                   Properties := Some [], Type := OBJECT\<rparr>;
                 uncommonSchemas = uncommonInit parent alts;
                 allProperties = countProperties alts;
                 (mergedProperties, uncommonSchemas) =
                    splitProperties allProperties uncommonSchemas alts;
                 mergedParent = mergedParent\<lparr>Properties := Some mergedProperties\<rparr>;
                 typeName = toCamel X s (Name mergedParent);
                 typeData = structComment X s h mergedParent typeName @ ''type '' @ typeName
                    @ '' struct {\<newline>'';
                 keys = sort (map fst mergedProperties)
             in case structFields X h rec mergedProperties keys typeData s of
                  None \<Rightarrow> None
                | Some (Inl e) \<Rightarrow> Some (Inl e)
                | Some (Inr (typeData, s1)) \<Rightarrow>
                   (let oneOfKeys = sort (map fst
                          (filter (\<lambda>(name, schema). length (entries (Properties schema)) > 0)
                             uncommonSchemas))
                    in case inlineFields X rec uncommonSchemas oneOfKeys typeData s1 of
                         None \<Rightarrow> None
                       | Some (Inl e) \<Rightarrow> Some (Inl e)
                       | Some (Inr (typeData, s2)) \<Rightarrow>
                          (case writeGoCode X s2 typeName (typeData @ ''}\<newline>\<newline>'') of
                             (Some e, s3) \<Rightarrow> Some (Inl e)
                           | (None, s3) \<Rightarrow> Some (Inr (typeName, s3)))))))"

subsection \<open>processSchema\<close>

text \<open>
  The body of \<open>processSchema\<close>, with its recursive calls made through \<open>rec\<close>.
\<close>

definition processSchemaStep :: "ext \<Rightarrow> heap \<Rightarrow> (Schema \<Rightarrow> SchemaProcessor \<Rightarrow> result) \<Rightarrow> Schema
    \<Rightarrow> SchemaProcessor \<Rightarrow> result" where
  "processSchemaStep X h rec schema s =
     (case Type schema of
        OBJECT \<Rightarrow>
          (let typeName = toCamel X s (Name schema)
           in case Properties schema of
                Some props \<Rightarrow>
                  (let typeData = structComment X s h schema typeName @ ''type '' @ typeName
                         @ '' struct {\<newline>'';
                       keys = sort (map fst props)
                   in case structFields X h rec props keys typeData s of
                        None \<Rightarrow> None
                      | Some (Inl e) \<Rightarrow> Some (Inl e)
                      | Some (Inr (typeData, s1)) \<Rightarrow>
                         (case writeGoCode X s1 typeName (typeData @ ''}\<newline>\<newline>'') of
                            (Some e, s2) \<Rightarrow> Some (Inl e)
                          | (None, s2) \<Rightarrow> Some (Inr (''*'' @ typeName, s2))))
              | None \<Rightarrow>
                 (case PatternProperties schema of
                    Some props \<Rightarrow>
                      patternFields X h rec schema props (sort (map fst props)) typeName s
                  | None \<Rightarrow>
                      if AdditionalProperties schema then Some (Inr (''map[string]any'', s))
                      else Some (Inr (typeName, s))))
      | ARRAY \<Rightarrow>
          (case processPtr rec h (Items schema) s of
             None \<Rightarrow> None
           | Some (Inl e) \<Rightarrow> Some (Inl e)
           | Some (Inr (subTypeName, s1)) \<Rightarrow>
              (let typeName = toCamel X s1 (Name schema);
                   typeName =
                     (if typeName = [] then
                        (if caserString X subTypeName = subTypeName then
                           (if HasSuffix subTypeName ''s'' then subTypeName @ ''es''
                            else subTypeName @ ''s'')
                         else typeName)
                      else typeName)
               in if typeName \<noteq> [] then
                    (let typeName = TrimPrefix typeName ''*'';
                         typeData = structComment X s1 h schema typeName @ ''type '' @ typeName
                           @ '' []'' @ subTypeName @ ''\<newline>\<newline>''
                     in case writeGoCode X s1 typeName typeData of
                          (Some e, s2) \<Rightarrow> Some (Inl e)
                        | (None, s2) \<Rightarrow> Some (Inr (typeName, s2)))
                  else Some (Inr (''[]'' @ subTypeName, s1))))
      | ANY \<Rightarrow>
          (if length (OneOf schema) > 0 then mergeSchemas X h rec schema (OneOf schema) s
           else if Const schema \<noteq> [] then Some (Inr (''string'', s))
           else if length (Enum schema) > 0 then Some (Inr (''string'', s))
           else Some (Inr (''any'', s)))
      | BOOLEAN \<Rightarrow> Some (Inr (''bool'', s))
      | INTEGER \<Rightarrow> Some (Inr (''int'', s))
      | NUMBER \<Rightarrow> Some (Inr (''float64'', s))
      | NULL \<Rightarrow> Some (Inr (''any'', s))
      | STRING \<Rightarrow> Some (Inr (''string'', s)))"

text \<open>\<open>processSchema\<close> to a recursion depth of at most \<open>n\<close> nested calls.\<close>

primrec processSchema :: "nat \<Rightarrow> ext \<Rightarrow> heap \<Rightarrow> Schema \<Rightarrow> SchemaProcessor \<Rightarrow> result" where
  "processSchema 0 X h = (\<lambda>schema s. None)"
| "processSchema (Suc n) X h = processSchemaStep X h (processSchema n X h)"

section \<open>Reference resolution\<close>

text \<open>
  \<open>setRoot\<close> changes nodes in place, so it maps a store to a store: \<open>None\<close> when the
  recursion has not returned within the given depth, \<open>Some (Inl e)\<close> for a panic.
\<close>

type_synonym hresult = "(error + heap) option"

text \<open>What the variable \<open>ctx\<close> of type \<open>any\<close> holds: a \<open>*Schema\<close> or a \<open>map[string]*Schema\<close>.\<close>

datatype ctx = CtxSchema ptr | CtxMap "(string \<times> ptr) list option"

text \<open>The walk through the raw document, over all parts of the path but \<open>#\<close>.\<close>

fun rawWalk :: "json \<Rightarrow> string list \<Rightarrow> error + json" where
  "rawWalk cursor [] = Inr cursor"
| "rawWalk cursor (part # parts) =
     (if part = ''#'' then rawWalk cursor parts
      else (case cursor of
              JObject m \<Rightarrow>
                (case map_of m part of
                   None \<Rightarrow> Inl (PathNotFound part)
                 | Some v \<Rightarrow> rawWalk v parts)
            | JArray xs \<Rightarrow> Inl (NotAMap part)
            | JString x \<Rightarrow> Inl (NotAMap part)
            | JNumber x \<Rightarrow> Inl (NotAMap part)
            | JBool x \<Rightarrow> Inl (NotAMap part)
            | JNull \<Rightarrow> Inl (NotAMap part)))"

text \<open>
  The default case of the path switch when the typed walk has no match: the raw walk, the
  re-decoding as a fresh node, the recursive \<open>setRoot\<close> on it, and the guessed description.
\<close>

definition fallback :: "ext \<Rightarrow> (ptr \<Rightarrow> heap \<Rightarrow> hresult) \<Rightarrow> nat \<Rightarrow> string list \<Rightarrow> string \<Rightarrow> heap
    \<Rightarrow> (error + nat \<times> heap) option" where
  "fallback X rec root schemaPath part h =
     (case rawWalk (JObject (entries (raw (h root)))) schemaPath of
        Inl e \<Rightarrow> Some (Inl e)
      | Inr cursor \<Rightarrow>
         (case Unmarshal X cursor h of
            Inl e \<Rightarrow> Some (Inl e)
          | Inr (refSchema, h1) \<Rightarrow>
             (case rec (Some refSchema) h1 of
                None \<Rightarrow> None
              | Some (Inl e) \<Rightarrow> Some (Inl e)
              | Some (Inr h2) \<Rightarrow>
                  Some (Inr (refSchema,
                    if Name (h2 refSchema) = []
                    then h2(refSchema := (h2 refSchema)\<lparr>Description := part\<rparr>)
                    else h2)))))"

text \<open>\<open>ctx.(*Schema).F\<close>: the type assertion panics on a map, the field access on nil.\<close>

definition field :: "heap \<Rightarrow> ctx \<Rightarrow> (Schema \<Rightarrow> ctx) \<Rightarrow> error + ctx" where
  "field h c f =
     (case c of
        CtxMap m \<Rightarrow> Inl TypeAssertion
      | CtxSchema None \<Rightarrow> Inl NilDereference
      | CtxSchema (Some a) \<Rightarrow> Inr (f (h a)))"

text \<open>\<open>ctx.(map[string]*Schema)\<close> followed by the lookup of \<open>part\<close>.\<close>

definition lookupCtx :: "ctx \<Rightarrow> string \<Rightarrow> ptr option" where
  "lookupCtx c part =
     (case c of
        CtxSchema p \<Rightarrow> None
      | CtxMap None \<Rightarrow> None
      | CtxMap (Some m) \<Rightarrow> map_of m part)"

text \<open>The loop over the parts of the path.\<close>

fun resolve :: "ext \<Rightarrow> (ptr \<Rightarrow> heap \<Rightarrow> hresult) \<Rightarrow> nat \<Rightarrow> string list \<Rightarrow> string list \<Rightarrow> ctx
    \<Rightarrow> heap \<Rightarrow> (error + ctx \<times> heap) option" where
  "resolve X rec root schemaPath [] c h = Some (Inr (c, h))"
| "resolve X rec root schemaPath (part # parts) c h =
     (if part = ''#'' then resolve X rec root schemaPath parts (CtxSchema (Some root)) h
      else if part = ''definitions'' then
        (case field h c (\<lambda>s. CtxMap (Definitions s)) of
           Inl e \<Rightarrow> Some (Inl e)
         | Inr c1 \<Rightarrow> resolve X rec root schemaPath parts c1 h)
      else if part = ''properties'' then
        (case field h c (\<lambda>s. CtxMap (Properties s)) of
           Inl e \<Rightarrow> Some (Inl e)
         | Inr c1 \<Rightarrow> resolve X rec root schemaPath parts c1 h)
      else if part = ''patternProperties'' then
        (case field h c (\<lambda>s. CtxMap (PatternProperties s)) of
           Inl e \<Rightarrow> Some (Inl e)
         | Inr c1 \<Rightarrow> resolve X rec root schemaPath parts c1 h)
      else if part = ''items'' then
        (case field h c (\<lambda>s. CtxSchema (Items s)) of
           Inl e \<Rightarrow> Some (Inl e)
         | Inr c1 \<Rightarrow> resolve X rec root schemaPath parts c1 h)
      else
        (case lookupCtx c part of
           Some def \<Rightarrow> resolve X rec root schemaPath parts (CtxSchema def) h
         | None \<Rightarrow>
            (case fallback X rec root schemaPath part h of
               None \<Rightarrow> None
             | Some (Inl e) \<Rightarrow> Some (Inl e)
             | Some (Inr (refSchema, h1)) \<Rightarrow>
                 resolve X rec root schemaPath parts (CtxSchema (Some refSchema)) h1)))"

text \<open>One round of the loop over \<open>schema.Properties\<close>, with the back-fill of the title.\<close>

definition setRootProperty :: "(ptr \<Rightarrow> heap \<Rightarrow> hresult) \<Rightarrow> string \<Rightarrow> ptr \<Rightarrow> heap \<Rightarrow> hresult" where
  "setRootProperty rec k v h =
     (case rec v h of
        None \<Rightarrow> None
      | Some (Inl e) \<Rightarrow> Some (Inl e)
      | Some (Inr h1) \<Rightarrow>
         (case v of
            None \<Rightarrow> Some (Inl NilDereference)
          | Some a \<Rightarrow>
              Some (Inr (if Name (h1 a) = [] then h1(a := (h1 a)\<lparr>Title := k\<rparr>) else h1))))"

fun setRootProperties :: "(ptr \<Rightarrow> heap \<Rightarrow> hresult) \<Rightarrow> (string \<times> ptr) list \<Rightarrow> heap \<Rightarrow> hresult" where
  "setRootProperties rec [] h = Some (Inr h)"
| "setRootProperties rec ((k, v) # kvs) h =
     (case setRootProperty rec k v h of
        None \<Rightarrow> None
      | Some (Inl e) \<Rightarrow> Some (Inl e)
      | Some (Inr h1) \<Rightarrow> setRootProperties rec kvs h1)"

text \<open>The loops over the pattern properties and over the alternatives.\<close>

fun setRootAll :: "(ptr \<Rightarrow> heap \<Rightarrow> hresult) \<Rightarrow> ptr list \<Rightarrow> heap \<Rightarrow> hresult" where
  "setRootAll rec [] h = Some (Inr h)"
| "setRootAll rec (v # vs) h =
     (case rec v h of
        None \<Rightarrow> None
      | Some (Inl e) \<Rightarrow> Some (Inl e)
      | Some (Inr h1) \<Rightarrow> setRootAll rec vs h1)"

definition andThen :: "hresult \<Rightarrow> (heap \<Rightarrow> hresult) \<Rightarrow> hresult" where
  "andThen r f = (case r of None \<Rightarrow> None | Some (Inl e) \<Rightarrow> Some (Inl e) | Some (Inr h) \<Rightarrow> f h)"

text \<open>The body of \<open>setRoot\<close>, with its recursive calls made through \<open>rec\<close>.\<close>

definition setRootStep :: "ext \<Rightarrow> (ptr \<Rightarrow> heap \<Rightarrow> hresult) \<Rightarrow> nat \<Rightarrow> ptr \<Rightarrow> heap \<Rightarrow> hresult" where
  "setRootStep X rec root schema h =
     (case schema of
        None \<Rightarrow> Some (Inl NilDereference)
      | Some a \<Rightarrow>
         andThen (Some (Inr (h(a := (h a)\<lparr>Root := Some root\<rparr>)))) (\<lambda>h.
         andThen (case Properties (h a) of
                    None \<Rightarrow> Some (Inr h)
                  | Some props \<Rightarrow> setRootProperties rec props h) (\<lambda>h.
         andThen (case PatternProperties (h a) of
                    None \<Rightarrow> Some (Inr h)
                  | Some props \<Rightarrow> setRootAll rec (map snd props) h) (\<lambda>h.
         andThen (case Items (h a) of
                    None \<Rightarrow> Some (Inr h)
                  | Some i \<Rightarrow> rec (Some i) h) (\<lambda>h.
         andThen (setRootAll rec (OneOf (h a)) h) (\<lambda>h.
           if Ref (h a) \<noteq> [] then
             (let schemaPath = Split (Ref (h a)) CHR ''/''
              in case resolve X rec root schemaPath schemaPath (CtxSchema (Some a)) h of
                   None \<Rightarrow> None
                 | Some (Inl e) \<Rightarrow> Some (Inl e)
                 | Some (Inr (CtxMap m, h1)) \<Rightarrow> Some (Inr h1)
                 | Some (Inr (CtxSchema None, h1)) \<Rightarrow> Some (Inl NilDereference)
                 | Some (Inr (CtxSchema (Some c), h1)) \<Rightarrow> Some (Inr (h1(a := h1 c))))
           else Some (Inr h)))))))"

text \<open>\<open>setRoot\<close> to a recursion depth of at most \<open>n\<close> nested calls.\<close>

primrec setRoot :: "nat \<Rightarrow> ext \<Rightarrow> nat \<Rightarrow> ptr \<Rightarrow> heap \<Rightarrow> hresult" where
  "setRoot 0 X root = (\<lambda>schema h. None)"
| "setRoot (Suc n) X root = setRootStep X (setRoot n X root) root"

section \<open>An instance of the external functions\<close>

text \<open>
  For evaluating examples: a camel-casing and a title-casing of plain ASCII words in the
  manner of the two libraries, no schema comments, a decoder that is never reached by the
  examples, and an output section that succeeds. The general theorems hold for every \<open>X\<close>.
\<close>

definition upper :: "char \<Rightarrow> char" where
  "upper c =
     (case map_of (zip ''abcdefghijklmnopqrstuvwxyz'' ''ABCDEFGHIJKLMNOPQRSTUVWXYZ'') c of
        None \<Rightarrow> c
      | Some u \<Rightarrow> u)"

definition lower :: "char \<Rightarrow> char" where
  "lower c =
     (case map_of (zip ''ABCDEFGHIJKLMNOPQRSTUVWXYZ'' ''abcdefghijklmnopqrstuvwxyz'') c of
        None \<Rightarrow> c
      | Some u \<Rightarrow> u)"

fun camelLoop :: "bool \<Rightarrow> bool \<Rightarrow> string \<Rightarrow> string" where
  "camelLoop capNext prevIsCap [] = []"
| "camelLoop capNext prevIsCap (v # vs) =
     (let vIsCap = (CHR ''A'' \<le> v \<and> v \<le> CHR ''Z'');
          vIsLow = (CHR ''a'' \<le> v \<and> v \<le> CHR ''z'');
          w = (if capNext then upper v else if prevIsCap \<and> vIsCap then lower v else v)
      in if vIsCap \<or> vIsLow then w # camelLoop False vIsCap vs
         else if IsDigit v then w # camelLoop True vIsCap vs
         else camelLoop (v = CHR ''_'' \<or> v = CHR '' '' \<or> v = CHR ''-'' \<or> v = CHR ''.'')
                vIsCap vs)"

fun titleLoop :: "bool \<Rightarrow> string \<Rightarrow> string" where
  "titleLoop inWord [] = []"
| "titleLoop inWord (c # cs) =
     (if IsLetter c then (if inWord then lower c else upper c) # titleLoop True cs
      else c # titleLoop (IsDigit c) cs)"

definition plainExt :: ext where
  "plainExt = \<lparr>ToCamel = camelLoop True False, caserString = titleLoop False,
     MarshalIndent = (\<lambda>h schema. []), Unmarshal = (\<lambda>cursor h. Inl UnmarshalError),
     outputResult = (\<lambda>s typeName code. None)\<rparr>"

text \<open>The processor that \<open>NewSchemaProcessor(Replacements(map[string]string{}))\<close> returns.\<close>

definition defaultProcessor :: SchemaProcessor where
  "defaultProcessor = zeroProcessor\<lparr>replacements := Some defaultReplacements\<rparr>"

definition emptyHeap :: heap where
  "emptyHeap = (\<lambda>a. zeroSchema)"

section \<open>Notions used to state the properties\<close>

text \<open>
  The identifier conversion as the specification words it: the first suffix rule that
  matches is applied, and the prefix rules are applied afterwards in every case.
\<close>

definition toIdentifierAsSpecified :: "ext \<Rightarrow> SchemaProcessor \<Rightarrow> string \<Rightarrow> string" where
  "toIdentifierAsSpecified X s str =
     (let word = ToCamel X str;
          word = (case suffixLoop (entries (replacements s)) word of
                    Some w \<Rightarrow> w
                  | None \<Rightarrow> word)
      in prefixLoop (entries (replacements s)) word)"

text \<open>The map that the last \<open>Replacements\<close> option of an argument list supplies, nil if none does.\<close>

fun supplied :: "SchemaProcessorOption \<Rightarrow> (string \<times> string) list option list" where
  "supplied (Replacements r) = [r]"
| "supplied (OutputDir d) = []"
| "supplied (PackageName n) = []"
| "supplied (Overwrite b) = []"
| "supplied (Stdout b) = []"
| "supplied (Format b) = []"
| "supplied (Comment b) = []"
| "supplied IO = []"

definition lastReplacements :: "SchemaProcessorOption list \<Rightarrow> (string \<times> string) list option" where
  "lastReplacements options =
     (if concat (map supplied options) = [] then None
      else last (concat (map supplied options)))"



text \<open>
  The fields of a struct, as triples of field name, type and key: for each key in turn,
  the type is what the recursive synthesis of the key's value returns, and the processor
  is threaded from one key to the next.
\<close>

fun synthesizeFields :: "ext \<Rightarrow> heap \<Rightarrow> (Schema \<Rightarrow> SchemaProcessor \<Rightarrow> result) \<Rightarrow> (string \<times> ptr) list
    \<Rightarrow> string list \<Rightarrow> SchemaProcessor
    \<Rightarrow> (error + (string \<times> string \<times> string) list \<times> SchemaProcessor) option" where
  "synthesizeFields X h rec props [] s = Some (Inr ([], s))"
| "synthesizeFields X h rec props (k # keys) s =
     (case processPtr rec h (index props k) s of
        None \<Rightarrow> None
      | Some (Inl e) \<Rightarrow> Some (Inl e)
      | Some (Inr (t, s1)) \<Rightarrow>
         (case synthesizeFields X h rec props keys s1 of
            None \<Rightarrow> None
          | Some (Inl e) \<Rightarrow> Some (Inl e)
          | Some (Inr (fs, s2)) \<Rightarrow> Some (Inr ((toCamel X s1 k, t, k) # fs, s2))))"

definition fieldLines :: "(string \<times> string \<times> string) list \<Rightarrow> string" where
  "fieldLines fs = concat (map (\<lambda>(name, t, k). fieldLine name t k) fs)"

text \<open>
  The nodes a node points to: the values of its three maps, its items and its alternatives.
\<close>

definition pointers :: "Schema \<Rightarrow> ptr set" where
  "pointers s = snd ` set (entries (Definitions s)) \<union> snd ` set (entries (Properties s))
     \<union> snd ` set (entries (PatternProperties s)) \<union> {Items s} \<union> set (OneOf s)"

text \<open>
  A store that keeps a set \<open>U\<close> of nodes apart, as the store of a document decoded into a
  tree does: no node points to the root, no node but the root points to a node of \<open>U\<close>,
  and no reference ends in the part \<open>#\<close>, which stands for the root itself.
\<close>

definition apart :: "nat set \<Rightarrow> nat \<Rightarrow> heap \<Rightarrow> bool" where
  "apart U root h = ((\<forall>a. Some root \<notin> pointers (h a))
     \<and> (\<forall>a. a \<noteq> root \<longrightarrow> pointers (h a) \<inter> Some ` U = {})
     \<and> (\<forall>a. last (Split (Ref (h a)) CHR ''/'') \<noteq> ''#''))"

text \<open>
  A decoder that allocates: the node it returns is not one of \<open>U\<close>, and it leaves the
  nodes of \<open>U\<close> as they are, in a store that still keeps them apart.
\<close>

definition freshDecoder :: "ext \<Rightarrow> nat set \<Rightarrow> nat \<Rightarrow> bool" where
  "freshDecoder X U root = (\<forall>cursor h b h1. apart U root h \<longrightarrow> Unmarshal X cursor h = Inr (b, h1)
      \<longrightarrow> b \<notin> U \<and> apart U root h1 \<and> (\<forall>u \<in> U. h1 u = h u))"



section \<open>Example documents\<close>

text \<open>
  Each document is given as decoded by \<open>ParseSchema\<close>: its nodes in a store, the root at
  address 0 with the raw decoding of the document. \<open>resolved\<close> gives the store that a call
  of \<open>setRoot\<close> leaves.
\<close>

definition resolved :: "hresult \<Rightarrow> heap" where
  "resolved r = (case r of None \<Rightarrow> emptyHeap | Some (Inl e) \<Rightarrow> emptyHeap | Some (Inr h) \<Rightarrow> h)"

text \<open>
  \<^verbatim>\<open>{"title":"Pet","type":"object",
   "properties":{"name":{"type":"string"},"id":{"type":"integer"}}}\<close>
\<close>

definition petDoc :: heap where
  "petDoc = emptyHeap
     (0 := zeroSchema\<lparr>Title := ''Pet'', Type := OBJECT,
             Properties := Some [(''name'', Some 1), (''id'', Some 2)],
             raw := Some [(''title'', JString ''Pet''), (''type'', JString ''object''),
                          (''properties'',
                            JObject [(''name'', JObject [(''type'', JString ''string'')]),
                                     (''id'', JObject [(''type'', JString ''integer'')])])]\<rparr>,
      1 := zeroSchema\<lparr>Type := STRING\<rparr>,
      2 := zeroSchema\<lparr>Type := INTEGER\<rparr>)"

definition petHeap :: heap where
  "petHeap = resolved (setRoot 2 plainExt 0 (Some 0) petDoc)"

text \<open>
  \<^verbatim>\<open>{"title":"A","type":"object",
   "properties":{"x":{"title":"A","type":"object","properties":{"y":{"type":"string"}}}}}\<close>
\<close>

definition nestedDoc :: heap where
  "nestedDoc = emptyHeap
     (0 := zeroSchema\<lparr>Title := ''A'', Type := OBJECT, Properties := Some [(''x'', Some 1)],
             raw := Some [(''title'', JString ''A''), (''type'', JString ''object''),
                          (''properties'',
                            JObject [(''x'', JObject [(''title'', JString ''A''),
                               (''type'', JString ''object''),
                               (''properties'',
                                 JObject [(''y'', JObject [(''type'', JString ''string'')])])])])]\<rparr>,
      1 := zeroSchema\<lparr>Title := ''A'', Type := OBJECT, Properties := Some [(''y'', Some 2)]\<rparr>,
      2 := zeroSchema\<lparr>Type := STRING\<rparr>)"

definition nestedHeap :: heap where
  "nestedHeap = resolved (setRoot 3 plainExt 0 (Some 0) nestedDoc)"

text \<open>
  \<^verbatim>\<open>{"title":"T","type":"object","properties":{"HttpsProxy":{"type":"string"}}}\<close>
\<close>

definition proxyDoc :: heap where
  "proxyDoc = emptyHeap
     (0 := zeroSchema\<lparr>Title := ''T'', Type := OBJECT,
             Properties := Some [(''HttpsProxy'', Some 1)],
             raw := Some [(''title'', JString ''T''), (''type'', JString ''object''),
                          (''properties'',
                            JObject [(''HttpsProxy'', JObject [(''type'', JString ''string'')])])]\<rparr>,
      1 := zeroSchema\<lparr>Type := STRING\<rparr>)"

definition proxyHeap :: heap where
  "proxyHeap = resolved (setRoot 2 plainExt 0 (Some 0) proxyDoc)"

text \<open>
  \<^verbatim>\<open>{"properties":{"a":{"$ref":"#/definitions/Foo"}},
   "definitions":{"Foo":{"type":"string"}}}\<close>
  with the root at 0, the node of \<open>a\<close> at 1 and the node of \<open>Foo\<close> at 2.
\<close>

definition refDoc :: heap where
  "refDoc = emptyHeap
     (0 := zeroSchema\<lparr>Properties := Some [(''a'', Some 1)],
             Definitions := Some [(''Foo'', Some 2)],
             raw := Some [(''properties'',
                            JObject [(''a'', JObject [(''$ref'', JString ''#/definitions/Foo'')])]),
                          (''definitions'',
                            JObject [(''Foo'', JObject [(''type'', JString ''string'')])])]\<rparr>,
      1 := zeroSchema\<lparr>Ref := ''#/definitions/Foo''\<rparr>,
      2 := zeroSchema\<lparr>Type := STRING\<rparr>)"



text \<open>Reading a field of some nodes after a resolution, and synthesizing a node after it.\<close>

definition observe :: "hresult \<Rightarrow> (Schema \<Rightarrow> 'a) \<Rightarrow> nat list \<Rightarrow> (error + 'a list) option" where
  "observe r f as =
     (case r of
        None \<Rightarrow> None
      | Some (Inl e) \<Rightarrow> Some (Inl e)
      | Some (Inr h) \<Rightarrow> Some (Inr (map (\<lambda>a. f (h a)) as)))"


text \<open>
  \<^verbatim>\<open>{"title":"T","oneOf":[
     {"properties":{"a":{"type":"string"},"b":{"type":"string"}}},
     {"properties":{"a":{"type":"string"},"c":{"type":"string"}}}]}\<close>
  and, in \<open>typedOneOfDoc\<close>, the same with \<^verbatim>\<open>"type":"object"\<close> on the two alternatives.
\<close>

definition oneOfDoc :: heap where
  "oneOfDoc = emptyHeap
     (0 := zeroSchema\<lparr>Title := ''T'', OneOf := [Some 1, Some 2],
             raw := Some [(''title'', JString ''T''),
                          (''oneOf'', JArray
                            [JObject [(''properties'',
                               JObject [(''a'', JObject [(''type'', JString ''string'')]),
                                        (''b'', JObject [(''type'', JString ''string'')])])],
                             JObject [(''properties'',
                               JObject [(''a'', JObject [(''type'', JString ''string'')]),
                                        (''c'', JObject [(''type'', JString ''string'')])])]])]\<rparr>,
      1 := zeroSchema\<lparr>Properties := Some [(''a'', Some 3), (''b'', Some 4)]\<rparr>,
      2 := zeroSchema\<lparr>Properties := Some [(''a'', Some 5), (''c'', Some 6)]\<rparr>,
      3 := zeroSchema\<lparr>Type := STRING\<rparr>,
      4 := zeroSchema\<lparr>Type := STRING\<rparr>,
      5 := zeroSchema\<lparr>Type := STRING\<rparr>,
      6 := zeroSchema\<lparr>Type := STRING\<rparr>)"

definition oneOfHeap :: heap where
  "oneOfHeap = resolved (setRoot 3 plainExt 0 (Some 0) oneOfDoc)"

definition typedOneOfDoc :: heap where
  "typedOneOfDoc = emptyHeap
     (0 := zeroSchema\<lparr>Title := ''T'', OneOf := [Some 1, Some 2],
             raw := Some [(''title'', JString ''T''),
                          (''oneOf'', JArray
                            [JObject [(''type'', JString ''object''),
                               (''properties'',
                               JObject [(''a'', JObject [(''type'', JString ''string'')]),
                                        (''b'', JObject [(''type'', JString ''string'')])])],
                             JObject [(''type'', JString ''object''),
                               (''properties'',
                               JObject [(''a'', JObject [(''type'', JString ''string'')]),
                                        (''c'', JObject [(''type'', JString ''string'')])])]])]\<rparr>,
      1 := zeroSchema\<lparr>Type := OBJECT, Properties := Some [(''a'', Some 3), (''b'', Some 4)]\<rparr>,
      2 := zeroSchema\<lparr>Type := OBJECT, Properties := Some [(''a'', Some 5), (''c'', Some 6)]\<rparr>,
      3 := zeroSchema\<lparr>Type := STRING\<rparr>,
      4 := zeroSchema\<lparr>Type := STRING\<rparr>,
      5 := zeroSchema\<lparr>Type := STRING\<rparr>,
      6 := zeroSchema\<lparr>Type := STRING\<rparr>)"

definition typedOneOfHeap :: heap where
  "typedOneOfHeap = resolved (setRoot 3 plainExt 0 (Some 0) typedOneOfDoc)"

section \<open>Name derivation\<close>

lemma Split_nonempty: "Split s c \<noteq> []"
  by (induction s) (auto split: list.splits)

lemma length_Split: "length (Split s c) = Suc (length (filter (\<lambda>x. x = c) s))"
  by (induction s) (auto split: list.splits)

lemma last_Split: "last (Split s c) = rev (takeWhile (\<lambda>x. x \<noteq> c) (rev s))"
proof (induction s)
  case Nil
  then show ?case by simp
next
  case (Cons x xs)
  show ?case
  proof (cases "x = c")
    case True
    then show ?thesis using Cons Split_nonempty[of xs c]
      by (auto simp: takeWhile_append)
  next
    case False
    obtain p ps where sp: "Split xs c = p # ps"
      using Split_nonempty[of xs c] by (cases "Split xs c") auto
    show ?thesis
    proof (cases "ps = []")
      case True
      then have "length (Split xs c) = 1" using sp by simp
      then have "filter (\<lambda>x. x = c) xs = []" using length_Split[of xs c] by simp
      then have nc: "c \<notin> set xs" by (auto simp: filter_empty_conv)
      then have tw: "takeWhile (\<lambda>x. x \<noteq> c) (rev xs) = rev xs"
        by (metis (mono_tags, lifting) set_rev takeWhile_eq_all_conv)
      from Cons sp True have "p = rev (takeWhile (\<lambda>x. x \<noteq> c) (rev xs))" by simp
      also have "\<dots> = xs" by (simp only: tw rev_rev_ident)
      finally have "p = xs" .
      then show ?thesis using sp True False nc by (simp add: takeWhile_append)
    next
      case F2: False
      then have "length (Split xs c) > 1" using sp by (cases ps) auto
      then have "filter (\<lambda>x. x = c) xs \<noteq> []" using length_Split[of xs c] by auto
      then have "c \<in> set xs" by (metis (mono_tags, lifting) filter_False)
      then show ?thesis using Cons sp F2 False by (auto simp: takeWhile_append)
    qed
  qed
qed

text \<open>
  C6, the example as the specification states it: with no title and the id
  \<open>https://example.com/schemas/person.json\<close> the derived name is said to be \<open>person\<close>.
  The last segment is \<open>person.json\<close>, and stripping removes only the dot.
\<close>

theorem Name_example_counterexample:
  "Name (zeroSchema\<lparr>ID := ''https://example.com/schemas/person.json''\<rparr>) = ''personjson''
   \<and> Name (zeroSchema\<lparr>ID := ''https://example.com/schemas/person.json''\<rparr>) \<noteq> ''person''"
  by (simp add: Name_def zeroSchema_def Separator_def IsLetter_def IsDigit_def)

text \<open>
  C6: \<open>Name\<close> returns the title when it is not empty; else the text after the last \<open>/\<close>
  of the id (the last segment, which is empty when the id ends in \<open>/\<close>) with every
  character that is neither a letter nor a digit removed, when that is not empty; else
  the description.
\<close>

theorem Name_derivation:
  "Name s =
     (if Title s \<noteq> [] then Title s
      else if filter (\<lambda>r. IsLetter r \<or> IsDigit r)
                (rev (takeWhile (\<lambda>c. c \<noteq> CHR ''/'') (rev (ID s)))) \<noteq> []
      then filter (\<lambda>r. IsLetter r \<or> IsDigit r)
                (rev (takeWhile (\<lambda>c. c \<noteq> CHR ''/'') (rev (ID s))))
      else Description s)"
  by (simp add: Name_def Let_def last_Split Separator_def)

theorem Name_derivation_witness:
  "Name (zeroSchema\<lparr>ID := ''schemas/pet-1.json/'', Description := ''a pet''\<rparr>) = ''a pet''
   \<and> Name (zeroSchema\<lparr>ID := ''schemas/pet-1.json'', Description := ''a pet''\<rparr>) = ''pet1json''"
  using Name_derivation [of "zeroSchema\<lparr>ID := ''schemas/pet-1.json/'', Description := ''a pet''\<rparr>"]
    Name_derivation [of "zeroSchema\<lparr>ID := ''schemas/pet-1.json'', Description := ''a pet''\<rparr>"]
  by (simp add: zeroSchema_def IsLetter_def IsDigit_def)

section \<open>The constructor\<close>

lemma applyOption_replacements:
  "replacements (applyOption opt s) = (case supplied opt of [] \<Rightarrow> replacements s | r # rs \<Rightarrow> r)"
  by (cases opt) simp_all

lemma supplied_length: "length (supplied opt) \<le> 1"
  by (cases opt) simp_all

lemma foldl_applyOption_replacements:
  "replacements (foldl (\<lambda>s option. applyOption option s) zeroProcessor options) = lastReplacements options"
proof (induction options rule: rev_induct)
  case Nil
  then show ?case by (simp add: lastReplacements_def zeroProcessor_def)
next
  case (snoc x xs)
  show ?case
  proof (cases "supplied x")
    case Nil
    then show ?thesis using snoc by (simp add: lastReplacements_def applyOption_replacements)
  next
    case (Cons r rs)
    then have "rs = []" using supplied_length[of x] by simp
    then show ?thesis using Cons
      by (simp add: lastReplacements_def applyOption_replacements)
  qed
qed

lemma mergeReplacements_nil:
  "replacements s = None \<Longrightarrow> kvs \<noteq> [] \<Longrightarrow> mergeReplacements kvs s = Inl NilMapAssignment"
  by (cases kvs) auto

lemma mergeReplacements_ok:
  "replacements s = Some m \<Longrightarrow>
   \<exists>m'. mergeReplacements kvs s = Inr (s\<lparr>replacements := Some m'\<rparr>)
     \<and> map_of m' = map_of m ++ map_of (rev kvs)"
proof (induction kvs arbitrary: s m)
  case Nil
  then show ?case by (cases s) auto
next
  case (Cons kv kvs)
  obtain k v where kv: "kv = (k, v)" by (cases kv)
  let ?s1 = "s\<lparr>replacements := Some (AList.update k v m)\<rparr>"
  have "replacements ?s1 = Some (AList.update k v m)" by simp
  from Cons.IH[OF this] obtain m' where
    m': "mergeReplacements kvs ?s1 = Inr (?s1\<lparr>replacements := Some m'\<rparr>)"
        "map_of m' = map_of (AList.update k v m) ++ map_of (rev kvs)" by blast
  have "map_of m' = map_of m ++ map_of (rev (kv # kvs))"
    using m'(2) kv by (simp add: update_conv' map_add_upd_left fun_eq_iff map_add_def split: option.splits)
  then show ?case using m'(1) kv Cons.prems by auto
qed

text \<open>
  C10, the second half as stated: a call in which some option sets a non-nil replacements
  map returns normally. A later \<open>Replacements(nil)\<close> resets the field, and the call panics.
\<close>

theorem NewSchemaProcessor_later_nil_counterexample:
  "Replacements (Some [(''Id'', ''ID'')]) \<in> set [Replacements (Some [(''Id'', ''ID'')]), Replacements None]
   \<and> NewSchemaProcessor [Replacements (Some [(''Id'', ''ID'')]), Replacements None] = Inl NilMapAssignment"
  by (simp add: NewSchemaProcessor_def zeroProcessor_def defaultReplacements_def)

text \<open>
  C10: \<open>NewSchemaProcessor\<close> panics with an assignment to a nil map when the last
  \<open>Replacements\<close> option of the call supplies nil or the call has no such option, and it
  returns normally when the last \<open>Replacements\<close> option supplies a non-nil map.
\<close>

theorem NewSchemaProcessor_panics_iff:
  "(lastReplacements options = None \<longrightarrow> NewSchemaProcessor options = Inl NilMapAssignment)
   \<and> (\<forall>m. lastReplacements options = Some m \<longrightarrow> (\<exists>s. NewSchemaProcessor options = Inr s))"
proof (intro conjI allI impI)
  assume "lastReplacements options = None"
  then show "NewSchemaProcessor options = Inl NilMapAssignment"
    unfolding NewSchemaProcessor_def Let_def
    by (intro mergeReplacements_nil) (simp_all add: foldl_applyOption_replacements defaultReplacements_def)
next
  fix m assume "lastReplacements options = Some m"
  then have "replacements (foldl (\<lambda>s option. applyOption option s) zeroProcessor options) = Some m"
    by (simp add: foldl_applyOption_replacements)
  from mergeReplacements_ok[OF this, of defaultReplacements]
  show "\<exists>s. NewSchemaProcessor options = Inr s"
    unfolding NewSchemaProcessor_def Let_def by blast
qed

theorem NewSchemaProcessor_panics_iff_witness:
  "lastReplacements [Comment False] = None
   \<and> NewSchemaProcessor [Comment False] = Inl NilMapAssignment
   \<and> lastReplacements [Replacements None, Replacements (Some []), Stdout True] = Some []
   \<and> (\<exists>s. NewSchemaProcessor [Replacements None, Replacements (Some []), Stdout True] = Inr s)"
  using NewSchemaProcessor_panics_iff [of "[Comment False]"]
    NewSchemaProcessor_panics_iff [of "[Replacements None, Replacements (Some []), Stdout True]"]
  by (simp add: lastReplacements_def)


section \<open>Identifier conversion\<close>

lemma suffixLoop_find:
  "suffixLoop r w =
     (case find (\<lambda>(k, v). HasSuffix w k) r of
        None \<Rightarrow> None
      | Some (k, v) \<Rightarrow> Some (take (length w - length k) w @ v))"
  by (induction r) (auto simp: TrimSuffix_def)

lemma nth_mem_eq: "i < length r \<Longrightarrow> r ! i = x \<Longrightarrow> x \<in> set r"
  by auto

lemma suffixLoop_unique:
  assumes "(k, v) \<in> set r" and "HasSuffix w k"
    and u: "\<And>k' v'. (k', v') \<in> set r \<Longrightarrow> HasSuffix w k' \<Longrightarrow> k' = k \<and> v' = v"
  shows "suffixLoop r w = Some (TrimSuffix w k @ v)"
proof -
  from assms(1,2) have "find (\<lambda>(k, v). HasSuffix w k) r \<noteq> None"
    by (auto simp: find_None_iff)
  then obtain k' v' where f: "find (\<lambda>(k, v). HasSuffix w k) r = Some (k', v')"
    by fastforce
  then have "(k', v') \<in> set r" "HasSuffix w k'"
    by (auto simp: find_Some_iff intro: nth_mem_eq)
  with u have "k' = k \<and> v' = v" by blast
  with f assms(2) show ?thesis by (simp add: suffixLoop_find TrimSuffix_def)
qed

text \<open>
  C7 as stated, with the prefix rules applied after the suffix rule: on \<open>apiId\<close> and the
  built-in table the specified conversion gives \<open>APIID\<close>, while \<open>toCamel\<close> returns
  \<open>ApiID\<close> from inside its suffix loop and never reaches the prefix loop.
\<close>

theorem toCamel_early_return_counterexample:
  "toCamel plainExt defaultProcessor ''apiId'' = ''ApiID''
   \<and> toIdentifierAsSpecified plainExt defaultProcessor ''apiId'' = ''APIID''"
  by code_simp

lemma map_of_rev_distinct: "distinct (map fst xs) \<Longrightarrow> map_of (rev xs) = map_of xs"
  by (subst map_of_inject_set) (simp_all add: rev_map[symmetric])

lemma defaults_rev: "map_of (rev defaultReplacements) = map_of defaultReplacements"
  by (rule map_of_rev_distinct) (simp add: defaultReplacements_def)

lemma NewSchemaProcessor_table:
  assumes "lastReplacements options = Some m"
  shows "\<exists>s'. NewSchemaProcessor options = Inr s'
           \<and> map_of (entries (replacements s')) = map_of m ++ map_of defaultReplacements"
proof -
  from assms have "replacements (foldl (\<lambda>s option. applyOption option s) zeroProcessor options) = Some m"
    by (simp add: foldl_applyOption_replacements)
  from mergeReplacements_ok[OF this, of defaultReplacements]
  show ?thesis
    unfolding NewSchemaProcessor_def Let_def by (auto simp: entries_def defaults_rev)
qed

lemma userId_example:
  assumes n: "NewSchemaProcessor [Replacements (Some [(''Id'', ''ID'')])] = Inr s0"
    and r: "set (entries (replacements s)) = set (entries (replacements s0))"
    and c: "ToCamel X ''userId'' = ''UserId''"
  shows "toCamel X s ''userId'' = ''UserID''"
proof -
  have "NewSchemaProcessor [Replacements (Some [(''Id'', ''ID'')])] = Inr defaultProcessor"
    by code_simp
  with n have "s0 = defaultProcessor" by simp
  then have s0: "entries (replacements s0) = defaultReplacements"
    by (simp add: defaultProcessor_def entries_def)
  have mem: "(''Id'', ''ID'') \<in> set defaultReplacements"
    by (simp add: defaultReplacements_def)
  have suf: "HasSuffix ''UserId'' ''Id''"
    by code_simp
  have uniq: "\<forall>kv \<in> set defaultReplacements. HasSuffix ''UserId'' (fst kv) \<longrightarrow> kv = (''Id'', ''ID'')"
    by code_simp
  have "suffixLoop (entries (replacements s)) ''UserId'' = Some (TrimSuffix ''UserId'' ''Id'' @ ''ID'')"
  proof (rule suffixLoop_unique)
    show "(''Id'', ''ID'') \<in> set (entries (replacements s))" using mem r s0 by simp
    show "HasSuffix ''UserId'' ''Id''" by (rule suf)
    fix k' v' assume a: "(k', v') \<in> set (entries (replacements s))" "HasSuffix ''UserId'' k'"
    then have "(k', v') \<in> set defaultReplacements" using r s0 by simp
    with uniq have "HasSuffix ''UserId'' (fst (k', v')) \<longrightarrow> (k', v') = (''Id'', ''ID'')"
      by (rule bspec)
    with a(2) show "k' = ''Id'' \<and> v' = ''ID''" by simp
  qed
  moreover have "TrimSuffix ''UserId'' ''Id'' @ ''ID'' = ''UserID''"
    by code_simp
  ultimately show ?thesis by (simp add: toCamel_def c)
qed

text \<open>
  C7: \<open>toCamel\<close> converts the word with \<open>strcase.ToCamel\<close>; when some key of the
  table is a suffix of the converted word, the first such entry in iteration order
  replaces that suffix and the result is returned with no prefix rule applied; only when
  no key is a suffix are the prefix rules applied, in iteration order. A processor that
  \<open>NewSchemaProcessor\<close> returns holds the user's entries overridden and extended by the
  built-in table. With the replacement \<open>Id\<close> to \<open>ID\<close>, whatever the iteration order,
  \<open>userId\<close> yields \<open>UserID\<close> when \<open>strcase.ToCamel\<close> maps it to \<open>UserId\<close>.
\<close>

theorem toCamel_replacements:
  "toCamel X s str =
     (case find (\<lambda>(k, v). HasSuffix (ToCamel X str) k) (entries (replacements s)) of
        Some (k, v) \<Rightarrow> take (length (ToCamel X str) - length k) (ToCamel X str) @ v
      | None \<Rightarrow> prefixLoop (entries (replacements s)) (ToCamel X str))
   \<and> (\<forall>m. lastReplacements options = Some m \<longrightarrow>
        (\<exists>s'. NewSchemaProcessor options = Inr s'
           \<and> map_of (entries (replacements s')) = map_of m ++ map_of defaultReplacements))
   \<and> (NewSchemaProcessor [Replacements (Some [(''Id'', ''ID'')])] = Inr s0
        \<and> set (entries (replacements s)) = set (entries (replacements s0))
        \<and> ToCamel X ''userId'' = ''UserId''
      \<longrightarrow> toCamel X s ''userId'' = ''UserID'')"
proof (intro conjI allI impI)
  show "toCamel X s str =
     (case find (\<lambda>(k, v). HasSuffix (ToCamel X str) k) (entries (replacements s)) of
        Some (k, v) \<Rightarrow> take (length (ToCamel X str) - length k) (ToCamel X str) @ v
      | None \<Rightarrow> prefixLoop (entries (replacements s)) (ToCamel X str))"
    by (simp add: toCamel_def Let_def suffixLoop_find split: option.splits)
next
  fix m assume "lastReplacements options = Some m"
  then show "\<exists>s'. NewSchemaProcessor options = Inr s'
           \<and> map_of (entries (replacements s')) = map_of m ++ map_of defaultReplacements"
    by (rule NewSchemaProcessor_table)
next
  assume a: "NewSchemaProcessor [Replacements (Some [(''Id'', ''ID'')])] = Inr s0
        \<and> set (entries (replacements s)) = set (entries (replacements s0))
        \<and> ToCamel X ''userId'' = ''UserId''"
  show "toCamel X s ''userId'' = ''UserID''"
    by (rule userId_example[OF a[THEN conjunct1] a[THEN conjunct2, THEN conjunct1]
          a[THEN conjunct2, THEN conjunct2]])
qed

theorem toCamel_replacements_witness:
  "toCamel plainExt defaultProcessor ''userId'' = ''UserID''
   \<and> toCamel plainExt defaultProcessor ''http_client'' = ''HTTPClient''
   \<and> (\<exists>s'. NewSchemaProcessor [Replacements (Some [(''Uuid'', ''UUID''), (''Id'', ''Ident'')])] = Inr s'
        \<and> map_of (entries (replacements s')) ''Uuid'' = Some ''UUID''
        \<and> map_of (entries (replacements s')) ''Id'' = Some ''ID'')"
proof -
  have n: "NewSchemaProcessor [Replacements (Some [(''Id'', ''ID'')])] = Inr defaultProcessor"
    by code_simp
  have c: "ToCamel plainExt ''userId'' = ''UserId''"
    by code_simp
  have l: "lastReplacements [Replacements (Some [(''Uuid'', ''UUID''), (''Id'', ''Ident'')])]
             = Some [(''Uuid'', ''UUID''), (''Id'', ''Ident'')]"
    by (simp add: lastReplacements_def)
  note t = toCamel_replacements [of plainExt defaultProcessor "''http_client''"
      "[Replacements (Some [(''Uuid'', ''UUID''), (''Id'', ''Ident'')])]" defaultProcessor]
  note t1 = t[THEN conjunct1] and t2 = t[THEN conjunct2, THEN conjunct1]
    and t3 = t[THEN conjunct2, THEN conjunct2]
  have 1: "toCamel plainExt defaultProcessor ''userId'' = ''UserID''"
    by (rule t3[THEN mp]) (intro conjI n c refl)
  have f: "find (\<lambda>(k, v). HasSuffix (ToCamel plainExt ''http_client'') k)
             (entries (replacements defaultProcessor)) = None"
    by code_simp
  have p: "prefixLoop (entries (replacements defaultProcessor)) (ToCamel plainExt ''http_client'')
             = ''HTTPClient''"
    by code_simp
  have 2: "toCamel plainExt defaultProcessor ''http_client'' = ''HTTPClient''"
    by (subst t1) (simp only: f p option.case)
  have d: "map_of defaultReplacements ''Uuid'' = None" "map_of defaultReplacements ''Id'' = Some ''ID''"
    by code_simp+
  from t2[rule_format, OF l] obtain s' where
    s': "NewSchemaProcessor [Replacements (Some [(''Uuid'', ''UUID''), (''Id'', ''Ident'')])] = Inr s'"
        "map_of (entries (replacements s')) =
           map_of [(''Uuid'', ''UUID''), (''Id'', ''Ident'')] ++ map_of defaultReplacements"
    by blast
  have u: "map_of [(''Uuid'', ''UUID''), (''Id'', ''Ident'')] ''Uuid'' = Some ''UUID''"
    by simp
  have 3: "\<exists>s'. NewSchemaProcessor [Replacements (Some [(''Uuid'', ''UUID''), (''Id'', ''Ident'')])] = Inr s'
        \<and> map_of (entries (replacements s')) ''Uuid'' = Some ''UUID''
        \<and> map_of (entries (replacements s')) ''Id'' = Some ''ID''"
    by (rule exI[of _ s']) (simp only: s' map_add_def d u option.case simp_thms)
  from 1 2 3 show ?thesis by (intro conjI)
qed

section \<open>Emission once per name\<close>


lemma handed_writeGoCode:
  "handed (snd (writeGoCode X s n c)) = (if seen s n then handed s else handed s @ [(n, c)])"
  by (auto simp: writeGoCode_def Let_def split: option.splits)









section \<open>Objects without shape\<close>

lemma processSchema_object_without_shape:
  "Type schema = OBJECT \<Longrightarrow> Properties schema = None \<Longrightarrow> PatternProperties schema = None \<Longrightarrow>
   \<not> AdditionalProperties schema \<Longrightarrow>
   processSchema (Suc n) X h schema s = Some (Inr (toCamel X s (Name schema), s))"
  by (simp add: processSchemaStep_def)

text \<open>
  C8: for the schema \<open>{"type": "object", "title": "Foo"}\<close> (no properties, no pattern
  properties, additionalProperties false) \<open>processSchema\<close> returns the converted name
  \<open>Foo\<close> and emits nothing; it does not return \<open>map[string]any\<close>.
\<close>

theorem processSchema_bare_object:
  "processSchema 1 plainExt emptyHeap (zeroSchema\<lparr>Title := ''Foo'', Type := OBJECT\<rparr>) defaultProcessor
     = Some (Inr (''Foo'', defaultProcessor))"
  by code_simp

section \<open>Iteration order\<close>

text \<open>
  C9: one document and one replacements map (the built-in table), enumerated in two
  orders by the \<open>range\<close> statements of \<open>toCamel\<close>: the emitted struct has the field
  \<open>HTTPsProxy\<close> under one order and \<open>HTTPSProxy\<close> under the other.
\<close>

theorem processSchema_iteration_order:
  "set (rev defaultReplacements) = set defaultReplacements
   \<and> processSchema 2 plainExt proxyHeap (proxyHeap 0) defaultProcessor =
       Some (Inr (''*T'', defaultProcessor\<lparr>processed := Some [(''T'', True)],
         handed := [(''T'', ''type T struct {\<newline>''
                       @ fieldLine ''HTTPsProxy'' ''string'' ''HttpsProxy''
                       @ ''}\<newline>\<newline>'')]\<rparr>))
   \<and> processSchema 2 plainExt proxyHeap (proxyHeap 0)
         (defaultProcessor\<lparr>replacements := Some (rev defaultReplacements)\<rparr>) =
       Some (Inr (''*T'', defaultProcessor\<lparr>replacements := Some (rev defaultReplacements),
         processed := Some [(''T'', True)],
         handed := [(''T'', ''type T struct {\<newline>''
                       @ fieldLine ''HTTPSProxy'' ''string'' ''HttpsProxy''
                       @ ''}\<newline>\<newline>'')]\<rparr>))"
  by code_simp

section \<open>Reference resolution\<close>

text \<open>
  C4: after \<open>setRoot(schema, schema)\<close> on the decoded document \<open>refDoc\<close>, the root has
  its back-reference, but the node of property \<open>a\<close>, which carried the reference, and
  the node at \<open>definitions.Foo\<close> both have a nil \<open>Root\<close>: the definitions are never
  visited, and the overwrite of the referring node copies the nil \<open>Root\<close> of its target
  over the one just set.
\<close>

theorem setRoot_reference_loses_root:
  "observe (setRoot 2 plainExt 0 (Some 0) refDoc) Root [0, 1, 2] = Some (Inr [Some 0, None, None])
   \<and> observe (setRoot 2 plainExt 0 (Some 0) refDoc) Type [0, 1, 2] = Some (Inr [ANY, STRING, STRING])"
  by code_simp
































text \<open>
  A decoder allocates if it changes no node of \<open>U\<close>, and the nodes it writes neither
  point into \<open>U\<close> nor refer to the root; the decoder of \<open>plainExt\<close>, which fails on
  every input, is one.
\<close>

lemma freshDecoder_allocating:
  assumes "root \<in> U"
    and "\<And>cursor h b h1. Unmarshal X cursor h = Inr (b, h1) \<Longrightarrow>
           b \<notin> U \<and> (\<forall>a. h1 a = h a \<or> (a \<notin> U \<and> pointers (h1 a) \<inter> Some ` U = {}
                                \<and> last (Split (Ref (h1 a)) CHR ''/'') \<noteq> ''#''))"
  shows "freshDecoder X U root"
  unfolding freshDecoder_def
proof (intro allI impI)
  fix cursor h b h1
  assume ap: "apart U root h" and u: "Unmarshal X cursor h = Inr (b, h1)"
  from assms(2)[OF u] have b: "b \<notin> U"
    and n: "\<And>a. h1 a = h a \<or> (a \<notin> U \<and> pointers (h1 a) \<inter> Some ` U = {}
                                \<and> last (Split (Ref (h1 a)) CHR ''/'') \<noteq> ''#'')"
    by auto
  have 1: "Some root \<notin> pointers (h1 a)" for a
    using n[of a] ap assms(1) unfolding apart_def by auto
  have 2: "pointers (h1 a) \<inter> Some ` U = {}" if "a \<noteq> root" for a
  proof -
    have "pointers (h a) \<inter> Some ` U = {}" using ap that by (simp add: apart_def)
    then show ?thesis using n[of a] by auto
  qed
  have 3: "last (Split (Ref (h1 a)) CHR ''/'') \<noteq> ''#''" for a
    using n[of a] ap unfolding apart_def by auto
  have 4: "\<forall>u \<in> U. h1 u = h u"
    using n by auto
  show "b \<notin> U \<and> apart U root h1 \<and> (\<forall>u \<in> U. h1 u = h u)"
    using b 1 2 3 4 unfolding apart_def by blast
qed




section \<open>Merging alternatives\<close>

lemma Name_untitled: "Title u = [] \<Longrightarrow> ID u = [] \<Longrightarrow> Name u = Description u"
  by (simp add: Name_def)

lemma derefAll_length: "derefAll h ps = Some ss \<Longrightarrow> length ss = length ps"
proof (induction ps arbitrary: ss)
  case Nil
  then show ?case by simp
next
  case (Cons p ps)
  then show ?case by (cases p) (auto split: option.splits)
qed

lemma mergeSchemas_shape:
  assumes "2 \<le> length alts" and "derefAll h schemas = Some alts"
    and "splitProperties (countProperties alts) (uncommonInit parent alts) alts = (merged, uncommon)"
  shows "mergeSchemas X h rec parent schemas s =
     (let typeName = toCamel X s (Name parent);
          mergedParent = zeroSchema\<lparr>Description := Name parent, Root := Root parent,
             Properties := Some merged, Type := OBJECT\<rparr>
      in case structFields X h rec merged (sort (map fst merged))
                (structComment X s h mergedParent typeName @ ''type '' @ typeName
                   @ '' struct {\<newline>'') s of
           None \<Rightarrow> None
         | Some (Inl e) \<Rightarrow> Some (Inl e)
         | Some (Inr (typeData, s1)) \<Rightarrow>
            (case inlineFields X rec uncommon
                    (sort (map fst (filter (\<lambda>(name, u). 0 < length (entries (Properties u)))
                       uncommon))) typeData s1 of
               None \<Rightarrow> None
             | Some (Inl e) \<Rightarrow> Some (Inl e)
             | Some (Inr (typeData, s2)) \<Rightarrow>
                (case writeGoCode X s2 typeName (typeData @ ''}\<newline>\<newline>'') of
                   (Some e, s3) \<Rightarrow> Some (Inl e)
                 | (None, s3) \<Rightarrow> Some (Inr (typeName, s3)))))"
proof -
  from assms(1,2) have "2 \<le> length schemas" by (simp add: derefAll_length)
  then obtain p1 p2 ps where sc: "schemas = p1 # p2 # ps"
    by (cases schemas; cases "tl schemas") auto
  have n: "Name (zeroSchema\<lparr>Description := Name parent, Root := Root parent,
             Properties := Some merged, Type := OBJECT\<rparr>) = Name parent"
    by (simp add: Name_untitled zeroSchema_def)
  have mp: "zeroSchema\<lparr>Description := Name parent, Root := Root parent,
             Properties := Some [], Type := OBJECT, Properties := Some merged\<rparr> =
           zeroSchema\<lparr>Description := Name parent, Root := Root parent,
             Properties := Some merged, Type := OBJECT\<rparr>"
    by simp
  show ?thesis
    unfolding mergeSchemas_def sc list.case Let_def assms(2)[unfolded sc] option.case
      assms(3) prod.case mp n
    by (rule refl)
qed


text \<open>
  C3, on the example of the specification,
  \<open>oneOf = [{properties: {a, b}}, {properties: {a, c}}]\<close>: the merged type should have
  the common field of \<open>a\<close> and two inlined groups, one with \<open>b\<close> and one with \<open>c\<close>.
  The two alternatives have no name, so both are filed under the empty name in
  \<open>uncommonSchemas\<close>, the second replacing the first, and the one synthetic node takes
  the type of the second. In \<open>oneOfDoc\<close>, where the alternatives have no type, the
  merged struct has the field of \<open>a\<close> and a single inlined field of type \<open>any\<close> with
  an empty name, and neither \<open>b\<close> nor \<open>c\<close> is a field of any emitted type. In
  \<open>typedOneOfDoc\<close>, where both have the type object, there is a single group, a struct
  with the empty name that has both \<open>b\<close> and \<open>c\<close>.
\<close>

theorem mergeSchemas_unnamed_alternatives:
  "processSchema 3 plainExt oneOfHeap (oneOfHeap 0) defaultProcessor =
     Some (Inr (''T'', defaultProcessor\<lparr>processed := Some [(''T'', True)],
       handed := [(''T'', ''type T struct {\<newline>'' @ fieldLine ''A'' ''string'' ''a''
                     @ inlineLine [] ''any'' @ ''}\<newline>\<newline>'')]\<rparr>))
   \<and> processSchema 3 plainExt typedOneOfHeap (typedOneOfHeap 0) defaultProcessor =
     Some (Inr (''T'', defaultProcessor\<lparr>processed := Some [([], True), (''T'', True)],
       handed := [([], ''type  struct {\<newline>'' @ fieldLine ''B'' ''string'' ''b''
                     @ fieldLine ''C'' ''string'' ''c'' @ ''}\<newline>\<newline>''),
                  (''T'', ''type T struct {\<newline>'' @ fieldLine ''A'' ''string'' ''a''
                     @ inlineLine [] ''*'' @ ''}\<newline>\<newline>'')]\<rparr>))"
  by code_simp

section \<open>Recursion depth\<close>

text \<open>
  A synthesis that returns within some depth returns the same at every greater depth.
\<close>

lemma processPtr_mono:
  assumes "\<And>x s r. rec x s = Some r \<Longrightarrow> rec' x s = Some r"
    and "processPtr rec h p s = Some r"
  shows "processPtr rec' h p s = Some r"
  using assms by (cases p) (auto simp: processPtr_def)

lemma structFields_mono:
  assumes "\<And>x s r. rec x s = Some r \<Longrightarrow> rec' x s = Some r"
    and "structFields X h rec props keys typeData s = Some r"
  shows "structFields X h rec' props keys typeData s = Some r"
  using assms(2)
proof (induction keys arbitrary: typeData s)
  case Nil
  then show ?case by simp
next
  case (Cons k keys)
  from Cons.prems obtain y where y: "processPtr rec h (index props k) s = Some y"
    by (cases "processPtr rec h (index props k) s") auto
  then have y': "processPtr rec' h (index props k) s = Some y"
    using assms(1) by (rule processPtr_mono[rotated])
  show ?case
  proof (cases y)
    case (Inl e)
    then show ?thesis using Cons.prems y y' by auto
  next
    case (Inr ts)
    obtain t s1 where "ts = (t, s1)" by (cases ts)
    then show ?thesis using Cons.prems y y' Inr Cons.IH by auto
  qed
qed

lemma patternFields_mono:
  assumes "\<And>x s r. rec x s = Some r \<Longrightarrow> rec' x s = Some r"
    and "patternFields X h rec schema props keys typeName s = Some r"
  shows "patternFields X h rec' schema props keys typeName s = Some r"
  using assms(2)
proof (induction keys arbitrary: typeName s)
  case Nil
  then show ?case by simp
next
  case (Cons k keys)
  from Cons.prems obtain y where y: "processPtr rec h (index props k) s = Some y"
    by (cases "processPtr rec h (index props k) s") auto
  then have y': "processPtr rec' h (index props k) s = Some y"
    using assms(1) by (rule processPtr_mono[rotated])
  show ?case
  proof (cases y)
    case (Inl e)
    then show ?thesis using Cons.prems y y' by auto
  next
    case (Inr ts)
    obtain t s1 where ts: "ts = (t, s1)" by (cases ts)
    show ?thesis
    proof (cases "caserString X t = t")
      case True
      let ?n = "TrimPrefix (t @ ''Map'') ''*''"
      let ?d = "structComment X s1 h schema ?n @ ''type '' @ ?n @ '' map[string]'' @ t
                  @ ''\<newline>\<newline>''"
      obtain eo s2 where w: "writeGoCode X s1 ?n ?d = (eo, s2)"
        by (cases "writeGoCode X s1 ?n ?d")
      show ?thesis
      proof (cases eo)
        case None
        then show ?thesis using Cons.prems y y' Inr ts True w Cons.IH
          by (auto simp: Let_def)
      next
        case (Some e)
        then show ?thesis using Cons.prems y y' Inr ts True w
          by (auto simp: Let_def)
      qed
    next
      case False
      then show ?thesis using Cons.prems y y' Inr ts Cons.IH by auto
    qed
  qed
qed

lemma inlineFields_mono:
  assumes "\<And>x s r. rec x s = Some r \<Longrightarrow> rec' x s = Some r"
    and "inlineFields X rec uncommon keys typeData s = Some r"
  shows "inlineFields X rec' uncommon keys typeData s = Some r"
  using assms(2)
proof (induction keys arbitrary: typeData s)
  case Nil
  then show ?case by simp
next
  case (Cons k keys)
  let ?c = "\<lambda>rec. (case map_of uncommon k of None \<Rightarrow> Some (Inl NilDereference) | Some u \<Rightarrow> rec u s)"
  from Cons.prems obtain y where y: "?c rec = Some y"
    by (cases "?c rec") auto
  then have y': "?c rec' = Some y"
    using assms(1) by (auto split: option.splits)
  show ?case
  proof (cases y)
    case (Inl e)
    then show ?thesis using Cons.prems y y' by auto
  next
    case (Inr ts)
    obtain t s1 where "ts = (t, s1)" by (cases ts)
    then show ?thesis using Cons.prems y y' Inr Cons.IH by auto
  qed
qed


lemma mergeSchemas_mono:
  assumes mono: "\<And>x s r. rec x s = Some r \<Longrightarrow> rec' x s = Some r"
    and m: "mergeSchemas X h rec parent schemas s = Some r"
  shows "mergeSchemas X h rec' parent schemas s = Some r"
proof (cases schemas)
  case Nil
  then show ?thesis using m by (simp add: mergeSchemas_def)
next
  case (Cons p1 ps)
  show ?thesis
  proof (cases ps)
    case Nil
    then have "processPtr rec h p1 s = Some r" using m Cons by (simp add: mergeSchemas_def)
    then have "processPtr rec' h p1 s = Some r" using mono by (rule processPtr_mono[rotated])
    then show ?thesis using Cons Nil by (simp add: mergeSchemas_def)
  next
    case c2: (Cons p2 ps')
    show ?thesis
    proof (cases "derefAll h schemas")
      case None
      then show ?thesis using m
        unfolding mergeSchemas_def Cons c2 list.case by simp
    next
      case (Some alts)
      then have l: "2 \<le> length alts" using Cons c2 by (simp add: derefAll_length)
      obtain merged uncommon where
        sp: "splitProperties (countProperties alts) (uncommonInit parent alts) alts
               = (merged, uncommon)"
        by (cases "splitProperties (countProperties alts) (uncommonInit parent alts) alts")
      let ?T = "toCamel X s (Name parent)"
      let ?hd = "structComment X s h (zeroSchema\<lparr>Description := Name parent,
          Root := Root parent, Properties := Some merged, Type := OBJECT\<rparr>) ?T @ ''type '' @ ?T
          @ '' struct {\<newline>''"
      let ?ks = "sort (map fst (filter (\<lambda>(name, u). 0 < length (entries (Properties u))) uncommon))"
      note sh = mergeSchemas_shape[OF l Some sp, unfolded Let_def]
      from m obtain y where y: "structFields X h rec merged (sort (map fst merged)) ?hd s = Some y"
        unfolding sh[of X rec s]
        by (cases "structFields X h rec merged (sort (map fst merged)) ?hd s") auto
      then have y': "structFields X h rec' merged (sort (map fst merged)) ?hd s = Some y"
        using mono by (rule structFields_mono[rotated])
      show ?thesis
      proof (cases y)
        case (Inl e)
        then show ?thesis using m y y' unfolding sh[of X rec s] sh[of X rec' s] by auto
      next
        case (Inr ts)
        obtain td s1 where ts: "ts = (td, s1)" by (cases ts)
        from m obtain z where z: "inlineFields X rec uncommon ?ks td s1 = Some z"
          unfolding sh[of X rec s] y Inr ts
          by (cases "inlineFields X rec uncommon ?ks td s1") auto
        then have z': "inlineFields X rec' uncommon ?ks td s1 = Some z"
          using mono by (rule inlineFields_mono[rotated])
        show ?thesis using m
          unfolding sh[of X rec s] sh[of X rec' s] y y' Inr ts option.case sum.case prod.case z z'
          by simp
      qed
    qed
  qed
qed

lemma processSchemaStep_mono:
  assumes mono: "\<And>x s r. rec x s = Some r \<Longrightarrow> rec' x s = Some r"
    and m: "processSchemaStep X h rec schema s = Some r"
  shows "processSchemaStep X h rec' schema s = Some r"
proof (cases "Type schema")
  case ANY
  then show ?thesis using m mergeSchemas_mono[OF mono]
    by (auto simp: processSchemaStep_def)
next
  case ARRAY
  from m ARRAY obtain y where y: "processPtr rec h (Items schema) s = Some y"
    by (cases "processPtr rec h (Items schema) s") (auto simp: processSchemaStep_def)
  then have y': "processPtr rec' h (Items schema) s = Some y"
    using mono by (rule processPtr_mono[rotated])
  show ?thesis using m ARRAY y y' by (simp add: processSchemaStep_def)
next
  case OBJECT
  show ?thesis
  proof (cases "Properties schema")
    case (Some props)
    let ?T = "toCamel X s (Name schema)"
    let ?hd = "structComment X s h schema ?T @ ''type '' @ ?T @ '' struct {\<newline>''"
    from m OBJECT Some obtain y where
      y: "structFields X h rec props (sort (map fst props)) ?hd s = Some y"
      by (cases "structFields X h rec props (sort (map fst props)) ?hd s")
        (auto simp: processSchemaStep_def Let_def)
    then have y': "structFields X h rec' props (sort (map fst props)) ?hd s = Some y"
      using mono by (rule structFields_mono[rotated])
    show ?thesis using m OBJECT Some y y' by (simp add: processSchemaStep_def Let_def)
  next
    case None
    show ?thesis
    proof (cases "PatternProperties schema")
      case pn: None
      then show ?thesis using m OBJECT None by (simp add: processSchemaStep_def Let_def)
    next
      case (Some props)
      then have "patternFields X h rec schema props (sort (map fst props))
          (toCamel X s (Name schema)) s = Some r"
        using m OBJECT None by (simp add: processSchemaStep_def Let_def)
      then have "patternFields X h rec' schema props (sort (map fst props))
          (toCamel X s (Name schema)) s = Some r"
        using mono by (rule patternFields_mono[rotated])
      then show ?thesis using OBJECT None Some by (simp add: processSchemaStep_def Let_def)
    qed
  qed
qed (use m in \<open>simp_all add: processSchemaStep_def\<close>)

lemma processSchema_Suc:
  "processSchema n X h schema s = Some r \<Longrightarrow> processSchema (Suc n) X h schema s = Some r"
proof (induction n arbitrary: schema s r)
  case 0
  then show ?case by simp
next
  case (Suc n)
  have "processSchemaStep X h (processSchema n X h) schema s = Some r"
    using Suc.prems by simp
  then have "processSchemaStep X h (processSchema (Suc n) X h) schema s = Some r"
    by (rule processSchemaStep_mono[rotated]) (rule Suc.IH)
  then show ?case by simp
qed

lemma processSchema_mono:
  "processSchema n X h schema s = Some r \<Longrightarrow> n \<le> m \<Longrightarrow> processSchema m X h schema s = Some r"
  by (induction m) (auto simp: le_Suc_eq dest: processSchema_Suc simp del: processSchema.simps)

section \<open>Objects with properties\<close>

lemma structFields_synthesize:
  "structFields X h rec props keys typeData s =
     (case synthesizeFields X h rec props keys s of
        None \<Rightarrow> None
      | Some (Inl e) \<Rightarrow> Some (Inl e)
      | Some (Inr (fs, s1)) \<Rightarrow> Some (Inr (typeData @ fieldLines fs, s1)))"
proof (induction keys arbitrary: typeData s)
  case Nil
  then show ?case by (simp add: fieldLines_def)
next
  case (Cons k keys)
  then show ?case
    by (simp add: fieldLines_def split: option.splits sum.splits prod.splits)
qed

lemma synthesizeFields_keys:
  "synthesizeFields X h rec props keys s = Some (Inr (fs, s1)) \<Longrightarrow>
   map (\<lambda>(name, t, k). k) fs = keys"
proof (induction keys arbitrary: fs s)
  case Nil
  then show ?case by simp
next
  case (Cons k keys)
  then show ?case
    by (auto split: option.splits sum.splits prod.splits)
qed

lemma index_distinct:
  "distinct (map fst props) \<Longrightarrow> k \<in> fst ` set props \<Longrightarrow> (k, index props k) \<in> set props"
  by (auto simp: index_def split: option.splits dest: map_of_SomeD simp: map_of_eq_None_iff)

lemma synthesizeFields_types:
  "synthesizeFields X h rec props keys s = Some (Inr (fs, s1)) \<Longrightarrow>
   (name, t, k) \<in> set fs \<Longrightarrow>
   \<exists>sa sb. processPtr rec h (index props k) sa = Some (Inr (t, sb)) \<and> name = toCamel X sb k"
proof (induction keys arbitrary: fs s)
  case Nil
  then show ?case by simp
next
  case (Cons k' keys)
  from Cons.prems(1) obtain t' s' fs' where
    a: "processPtr rec h (index props k') s = Some (Inr (t', s'))"
    and b: "synthesizeFields X h rec props keys s' = Some (Inr (fs', s1))"
    and c: "fs = (toCamel X s' k', t', k') # fs'"
    by (auto split: option.splits sum.splits prod.splits)
  show ?case
  proof (cases "(name, t, k) = (toCamel X s' k', t', k')")
    case True
    then show ?thesis using a by blast
  next
    case False
    then have "(name, t, k) \<in> set fs'" using Cons.prems(2) c by auto
    then show ?thesis using Cons.IH[OF b] by blast
  qed
qed

text \<open>
  C1 as stated, that synthesis of an object with properties emits a struct with one field
  per key: the root of \<open>nestedDoc\<close> has the single property \<open>x\<close>, whose value derives
  the same name \<open>A\<close>. The struct of the value is emitted first, the emission of the root
  is then skipped, and the only struct of the run has the field of \<open>y\<close> and none of \<open>x\<close>.
\<close>

theorem processSchema_shadowed_counterexample:
  "Type (nestedHeap 0) = OBJECT
   \<and> Properties (nestedHeap 0) = Some [(''x'', Some 1)]
   \<and> processSchema 3 plainExt nestedHeap (nestedHeap 0) defaultProcessor =
       Some (Inr (''*A'', defaultProcessor\<lparr>processed := Some [(''A'', True)],
         handed := [(''A'', ''type A struct {\<newline>'' @ fieldLine ''Y'' ''string'' ''y''
                       @ ''}\<newline>\<newline>'')]\<rparr>))"
  by code_simp


text \<open>
  C1: for a node of type object with a non-nil properties map with distinct keys, when the
  synthesis of the values returns the fields \<open>fs\<close> within depth \<open>n\<close>: there is exactly
  one field per key, in lexicographic order of the keys; the type of each field is what the
  recursive synthesis of the value of its key returned; at every greater depth the
  synthesis of the node returns, having passed the struct text with these fields under the
  converted name of the node to \<open>writeGoCode\<close>, which hands it on unless the name has
  been emitted before; and the value returned is \<open>*\<close> followed by that name.
\<close>

theorem processSchema_object_properties:
  assumes "Type schema = OBJECT" and "Properties schema = Some props"
    and "distinct (map fst props)"
    and "synthesizeFields X h (processSchema n X h) props (sort (map fst props)) s
           = Some (Inr (fs, s1))"
    and "typeName = toCamel X s (Name schema)"
    and "typeData = structComment X s h schema typeName @ ''type '' @ typeName
           @ '' struct {\<newline>'' @ fieldLines fs @ ''}\<newline>\<newline>''"
  shows "map (\<lambda>(name, t, k). k) fs = sort (map fst props)
     \<and> distinct (map (\<lambda>(name, t, k). k) fs)
     \<and> set (map (\<lambda>(name, t, k). k) fs) = fst ` set props
     \<and> (\<forall>(name, t, k) \<in> set fs. \<exists>v sa sb. (k, v) \<in> set props
           \<and> processPtr (processSchema n X h) h v sa = Some (Inr (t, sb))
           \<and> name = toCamel X sb k)
     \<and> (\<forall>m. processSchema (Suc n + m) X h schema s =
         (case writeGoCode X s1 typeName typeData of
            (Some e, s2) \<Rightarrow> Some (Inl e)
          | (None, s2) \<Rightarrow> Some (Inr (''*'' @ typeName, s2))))
     \<and> handed (snd (writeGoCode X s1 typeName typeData)) =
         (if seen s1 typeName then handed s1 else handed s1 @ [(typeName, typeData)])"
proof -
  have keys: "map (\<lambda>(name, t, k). k) fs = sort (map fst props)"
    using assms(4) by (rule synthesizeFields_keys)
  have d: "distinct (map (\<lambda>(name, t, k). k) fs)"
    using keys assms(3) by simp
  have st: "set (map (\<lambda>(name, t, k). k) fs) = fst ` set props"
    using keys by simp
  have ty: "\<forall>(name, t, k) \<in> set fs. \<exists>v sa sb. (k, v) \<in> set props
           \<and> processPtr (processSchema n X h) h v sa = Some (Inr (t, sb))
           \<and> name = toCamel X sb k"
  proof (clarify)
    fix name t k assume m: "(name, t, k) \<in> set fs"
    then have "k \<in> set (map (\<lambda>(name, t, k). k) fs)" by force
    then have "k \<in> fst ` set props" using st by simp
    then have "(k, index props k) \<in> set props" using assms(3) by (simp add: index_distinct)
    moreover from synthesizeFields_types[OF assms(4) m] obtain sa sb where
      "processPtr (processSchema n X h) h (index props k) sa = Some (Inr (t, sb))"
      "name = toCamel X sb k" by blast
    ultimately show "\<exists>v sa sb. (k, v) \<in> set props
           \<and> processPtr (processSchema n X h) h v sa = Some (Inr (t, sb))
           \<and> name = toCamel X sb k" by blast
  qed
  have run: "processSchema (Suc n) X h schema s =
         (case writeGoCode X s1 typeName typeData of
            (Some e, s2) \<Rightarrow> Some (Inl e)
          | (None, s2) \<Rightarrow> Some (Inr (''*'' @ typeName, s2)))"
    unfolding assms(5,6) using assms(1,2,4)
    by (simp add: processSchemaStep_def Let_def structFields_synthesize)
  have hd: "handed (snd (writeGoCode X s1 typeName typeData)) =
         (if seen s1 typeName then handed s1 else handed s1 @ [(typeName, typeData)])"
    by (rule handed_writeGoCode)
  have "\<exists>r. processSchema (Suc n) X h schema s = Some r"
    unfolding run by (cases "writeGoCode X s1 typeName typeData"; cases "fst (writeGoCode X s1 typeName typeData)") auto
  then obtain r where r: "processSchema (Suc n) X h schema s = Some r" ..
  have all: "\<forall>m. processSchema (Suc n + m) X h schema s =
         (case writeGoCode X s1 typeName typeData of
            (Some e, s2) \<Rightarrow> Some (Inl e)
          | (None, s2) \<Rightarrow> Some (Inr (''*'' @ typeName, s2)))"
  proof
    fix m
    have "processSchema (Suc n + m) X h schema s = Some r"
      using r by (rule processSchema_mono) simp
    then show "processSchema (Suc n + m) X h schema s =
         (case writeGoCode X s1 typeName typeData of
            (Some e, s2) \<Rightarrow> Some (Inl e)
          | (None, s2) \<Rightarrow> Some (Inr (''*'' @ typeName, s2)))"
      using r run by simp
  qed
  from keys d st ty all hd show ?thesis by (intro conjI)
qed

theorem processSchema_object_properties_witness:
  "processSchema (Suc 1) plainExt petHeap (petHeap 0) defaultProcessor =
     Some (Inr (''*Pet'', defaultProcessor\<lparr>processed := Some [(''Pet'', True)],
       handed := [(''Pet'', ''type Pet struct {\<newline>'' @ fieldLine ''ID'' ''int'' ''id''
                     @ fieldLine ''Name'' ''string'' ''name'' @ ''}\<newline>\<newline>'')]\<rparr>))"
proof -
  let ?props = "[(''name'', Some (1::nat)), (''id'', Some 2)]"
  let ?fs = "[(''ID'', ''int'', ''id''), (''Name'', ''string'', ''name'')]"
  let ?T = "toCamel plainExt defaultProcessor (Name (petHeap 0))"
  let ?D = "structComment plainExt defaultProcessor petHeap (petHeap 0) ?T @ ''type '' @ ?T
           @ '' struct {\<newline>'' @ fieldLines ?fs @ ''}\<newline>\<newline>''"
  have 1: "Type (petHeap 0) = OBJECT"
    by code_simp
  have 2: "Properties (petHeap 0) = Some ?props"
    by code_simp
  have 3: "distinct (map fst ?props)"
    by simp
  have 4: "synthesizeFields plainExt petHeap (processSchema 1 plainExt petHeap) ?props
             (sort (map fst ?props)) defaultProcessor = Some (Inr (?fs, defaultProcessor))"
    by code_simp
  note t = processSchema_object_properties [OF 1 2 3 4 refl refl]
  note r = t [THEN conjunct2, THEN conjunct2, THEN conjunct2, THEN conjunct2, THEN conjunct1,
      THEN spec, of 0, simplified add_0_right]
  have v: "(case writeGoCode plainExt defaultProcessor ?T ?D of
              (Some e, s2) \<Rightarrow> Some (Inl e)
            | (None, s2) \<Rightarrow> Some (Inr (''*'' @ ?T, s2))) =
     Some (Inr (''*Pet'', defaultProcessor\<lparr>processed := Some [(''Pet'', True)],
       handed := [(''Pet'', ''type Pet struct {\<newline>'' @ fieldLine ''ID'' ''int'' ''id''
                     @ fieldLine ''Name'' ''string'' ''name'' @ ''}\<newline>\<newline>'')]\<rparr>))"
    by code_simp
  show ?thesis by (rule trans [OF r v])
qed

end
